theory Spec2Isabelle
  imports Main "HOL-Library.Word"
begin

section \<open>The left-hand keyboard firmware (firmware/left/left.ino)\<close>

text \<open>
  The sketch with four layers and sticky keys. (The file holds an older two-layer sketch
  after it, and the right-hand sketch is its sibling; neither has sticky keys, and both
  debounce with the same comparison.)
  The firmware is one function, \<open>scanMatrix\<close>, run forever by \<open>loop\<close>. It works on global
  arrays of \<open>ROW_COUNT\<close> by \<open>COL_COUNT\<close> cells and on six sticky flags, reads the pins and the
  millisecond clock, and calls the USB keyboard library. The model passes the globals as a
  record, takes the pin readings and the clock values as arguments, and records the calls
  to the keyboard library in a list, oldest first.
\<close>

subsection \<open>Types and constants\<close>

type_synonym keycode = "8 word"  \<comment> \<open>\<open>uint8_t\<close>\<close>
type_synonym millis = "32 word"  \<comment> \<open>\<open>unsigned long\<close> on the RP2040: 32 bits, wraps around\<close>

definition ROW_COUNT :: nat where
  "ROW_COUNT = 4"

definition COL_COUNT :: nat where
  "COL_COUNT = 7"

definition BLANK :: keycode where  \<comment> \<open>the macro \<open>______\<close>\<close>
  "BLANK = 0x00"

definition KC_L1 :: keycode where
  "KC_L1 = 0xF1"

definition KEY_FUNC :: keycode where
  "KEY_FUNC = 0xF2"

definition STICKY :: keycode where
  "STICKY = 0xF3"

definition VOL_UP :: keycode where
  "VOL_UP = 0x00"

definition VOL_DOWN :: keycode where
  "VOL_DOWN = 0x00"

definition DEBOUNCE_DELAY :: millis where
  "DEBOUNCE_DELAY = 5"

text \<open>
  The key codes that \<open>Keyboard.h\<close> provides are not part of the repository, so they are a
  parameter of the model. (The sketch gives \<open>KEY_LEFT_CTRL\<close>, \<open>KEY_LEFT_SHIFT\<close> and
  \<open>KEY_LEFT_ALT\<close> fallback values under \<open>#ifndef\<close>; the library's own definitions win when
  they exist.)
\<close>

record keyboard_lib =
  KEY_LEFT_CTRL :: keycode
  KEY_LEFT_SHIFT :: keycode
  KEY_LEFT_ALT :: keycode
  KEY_LEFT_GUI :: keycode
  KEY_BACKSPACE :: keycode
  KEY_DELETE :: keycode
  KEY_UP_ARROW :: keycode
  KEY_DOWN_ARROW :: keycode
  KEY_LEFT_ARROW :: keycode
  KEY_RIGHT_ARROW :: keycode
  KEY_F1 :: keycode
  KEY_F2 :: keycode
  KEY_F3 :: keycode
  KEY_F4 :: keycode
  KEY_F5 :: keycode
  KEY_F6 :: keycode
  KEY_F7 :: keycode
  KEY_F8 :: keycode
  KEY_F9 :: keycode
  KEY_F10 :: keycode
  KEY_F11 :: keycode
  KEY_F12 :: keycode

text \<open>
  One instance, for concrete runs: the values of the stock Arduino keyboard library. The
  three modifiers are also the sketch's own fallback values.
\<close>

definition stock_lib :: keyboard_lib where
  "stock_lib = \<lparr>
     KEY_LEFT_CTRL = 0x80, KEY_LEFT_SHIFT = 0x81, KEY_LEFT_ALT = 0x82, KEY_LEFT_GUI = 0x83,
     KEY_BACKSPACE = 0xB2, KEY_DELETE = 0xD4,
     KEY_UP_ARROW = 0xDA, KEY_DOWN_ARROW = 0xD9, KEY_LEFT_ARROW = 0xD8, KEY_RIGHT_ARROW = 0xD7,
     KEY_F1 = 0xC2, KEY_F2 = 0xC3, KEY_F3 = 0xC4, KEY_F4 = 0xC5, KEY_F5 = 0xC6, KEY_F6 = 0xC7,
     KEY_F7 = 0xC8, KEY_F8 = 0xC9, KEY_F9 = 0xCA, KEY_F10 = 0xCB, KEY_F11 = 0xCC, KEY_F12 = 0xCD \<rparr>"

text \<open>A character literal of the sketch, as the byte it denotes.\<close>

definition ch :: "char \<Rightarrow> keycode" where
  "ch x = word_of_nat (of_char x)"

subsection \<open>The keymap\<close>

text \<open>
  \<open>keymaps[4][ROW_COUNT][COL_COUNT]\<close>, indexed by layer, row and column. The sketch's
  shorthands \<open>DEL\<close>, \<open>SUPER\<close>, \<open>UP\<close>, \<open>DOWN\<close>, \<open>LEFT\<close>, \<open>RIGHT\<close> and \<open>F1\<close> to \<open>F12\<close> are
  written as the library names they stand for.
\<close>

definition keymaps :: "keyboard_lib \<Rightarrow> keycode list list list" where
  "keymaps K = [
     \<comment> \<open>layer 0 (base)\<close>
     [ [ch CHR ''q'', ch CHR ''w'', ch CHR ''e'', ch CHR ''r'', ch CHR ''t'', KEY_BACKSPACE K, BLANK],
       [ch CHR ''a'', ch CHR ''s'', ch CHR ''d'', ch CHR ''f'', ch CHR ''g'', ch CHR ''?'', ch CHR ''!''],
       [KEY_LEFT_ALT K, ch CHR ''z'', ch CHR ''x'', ch CHR ''c'', ch CHR ''v'', KC_L1, BLANK],
       [BLANK, BLANK, BLANK, KEY_LEFT_SHIFT K, KEY_LEFT_CTRL K, ch CHR '' '', BLANK] ],
     \<comment> \<open>layer 1 (symbols), triggered by \<open>KC_L1\<close>\<close>
     [ [ch CHR ''@'', ch CHR '':'', ch CHR ''$'', ch CHR ''/'', ch CHR ''-'', KEY_BACKSPACE K, BLANK],
       [ch CHR ''~'', ch CHR ''<'', ch CHR ''%'', ch CHR ''*'', ch CHR ''+'', ch (CHR 0x27), KEY_FUNC],
       [ch CHR '';'', ch CHR ''>'', ch CHR ''&'', ch CHR ''^'', ch CHR ''='', KC_L1, BLANK],
       [BLANK, BLANK, BLANK, KEY_LEFT_SHIFT K, KEY_LEFT_CTRL K, ch CHR '' '', BLANK] ],
     \<comment> \<open>layer 2 (function keys), triggered by \<open>KEY_FUNC\<close> on layer 1\<close>
     [ [KEY_F1 K, KEY_F2 K, KEY_F3 K, KEY_F4 K, KEY_F5 K, KEY_DELETE K, BLANK],
       [KEY_F6 K, KEY_F7 K, KEY_F8 K, KEY_F9 K, KEY_F10 K, VOL_UP, KEY_FUNC],
       [STICKY, KEY_LEFT_GUI K, BLANK, KEY_F11 K, KEY_F12 K, KC_L1, BLANK],
       [BLANK, BLANK, BLANK, KEY_LEFT_SHIFT K, KEY_LEFT_CTRL K, VOL_DOWN, BLANK] ],
     \<comment> \<open>layer 3 (shifted layer 1), triggered by layer 1 + shift\<close>
     [ [BLANK, BLANK, BLANK, ch (CHR 0x5C), ch CHR ''_'', BLANK, BLANK],
       [BLANK, BLANK, ch CHR ''|'', KEY_UP_ARROW K, ch (CHR 0x60), ch (CHR 0x22), BLANK],
       [BLANK, BLANK, KEY_LEFT_ARROW K, KEY_DOWN_ARROW K, KEY_RIGHT_ARROW K, BLANK, BLANK],
       [BLANK, BLANK, BLANK, BLANK, BLANK, BLANK, ch CHR '' ''] ] ]"

subsection \<open>State\<close>

text \<open>
  The calls the sketch makes on \<open>Keyboard\<close>: \<open>press\<close>, \<open>release\<close> and \<open>releaseAll\<close>.
\<close>

datatype hid_call = Press keycode | Release keycode | ReleaseAll

text \<open>
  The globals. A two-dimensional array is a function of the row and the column; the sketch
  reads and writes it at constant indices and at loop indices below \<open>ROW_COUNT\<close> and
  \<open>COL_COUNT\<close> only. \<open>led\<close> is the level last written to \<open>LED_PIN\<close>, \<open>hid\<close> the calls
  made on \<open>Keyboard\<close> so far.
\<close>

record state =
  keyState :: "nat \<Rightarrow> nat \<Rightarrow> bool"
  prevInputState :: "nat \<Rightarrow> nat \<Rightarrow> bool"
  lastRawState :: "nat \<Rightarrow> nat \<Rightarrow> bool"
  lastDebounceTime :: "nat \<Rightarrow> nat \<Rightarrow> millis"
  stickyModeEnabled :: bool
  stickyL1 :: bool
  stickyFunc :: bool
  stickyShift :: bool
  stickyCtrl :: bool
  stickyAlt :: bool
  led :: bool
  hid :: "hid_call list"

text \<open>The assignment \<open>a[r][c] = v\<close>.\<close>

definition upd2 :: "(nat \<Rightarrow> nat \<Rightarrow> 'a) \<Rightarrow> nat \<Rightarrow> nat \<Rightarrow> 'a \<Rightarrow> (nat \<Rightarrow> nat \<Rightarrow> 'a)" where
  "upd2 a r c v = a(r := (a r)(c := v))"

text \<open>
  The state \<open>setup\<close> leaves behind: the arrays cleared, the flags at their initialisers,
  the LED off, and one \<open>Keyboard.releaseAll()\<close> sent.
\<close>

definition setup_state :: state where
  "setup_state = \<lparr>
     keyState = (\<lambda>r c. False), prevInputState = (\<lambda>r c. False),
     lastRawState = (\<lambda>r c. False), lastDebounceTime = (\<lambda>r c. 0),
     stickyModeEnabled = False, stickyL1 = False, stickyFunc = False,
     stickyShift = False, stickyCtrl = False, stickyAlt = False,
     led = False, hid = [ReleaseAll] \<rparr>"

definition kb_press :: "keycode \<Rightarrow> state \<Rightarrow> state" where
  "kb_press k s = s\<lparr>hid := hid s @ [Press k]\<rparr>"

definition kb_release :: "keycode \<Rightarrow> state \<Rightarrow> state" where
  "kb_release k s = s\<lparr>hid := hid s @ [Release k]\<rparr>"

definition kb_releaseAll :: "state \<Rightarrow> state" where
  "kb_releaseAll s = s\<lparr>hid := hid s @ [ReleaseAll]\<rparr>"

subsection \<open>Phase 1: scanning and debouncing\<close>

text \<open>
  The body of the inner scan loop for one cell: \<open>reading\<close> is what \<open>digitalRead\<close> returned
  (\<open>HIGH\<close> is \<open>True\<close>), \<open>now\<close> what \<open>millis()\<close> returned. The subtraction and the comparison
  are unsigned, on 32 bits.
\<close>

definition debounceCell :: "nat \<Rightarrow> nat \<Rightarrow> bool \<Rightarrow> millis \<Rightarrow> state \<Rightarrow> state" where
  "debounceCell row col reading now s =
     (let s1 = (if reading \<noteq> lastRawState s row col
                then s\<lparr>lastDebounceTime := upd2 (lastDebounceTime s) row col now\<rparr>
                else s);
          s2 = (if now - lastDebounceTime s1 row col > DEBOUNCE_DELAY
                then (if reading \<noteq> keyState s1 row col
                      then s1\<lparr>keyState := upd2 (keyState s1) row col reading\<rparr>
                      else s1)
                else s1)
      in s2\<lparr>lastRawState := upd2 (lastRawState s2) row col reading\<rparr>)"

text \<open>
  The scan: columns outside, rows inside. \<open>inp row col\<close> is the reading and the clock
  value the sketch gets for that cell in this scan.
\<close>

definition scanColumn :: "(nat \<Rightarrow> nat \<Rightarrow> bool \<times> millis) \<Rightarrow> nat \<Rightarrow> state \<Rightarrow> state" where
  "scanColumn inp col s =
     foldl (\<lambda>s row. debounceCell row col (fst (inp row col)) (snd (inp row col)) s) s [0..<ROW_COUNT]"

definition scanPhase :: "(nat \<Rightarrow> nat \<Rightarrow> bool \<times> millis) \<Rightarrow> state \<Rightarrow> state" where
  "scanPhase inp s = foldl (\<lambda>s col. scanColumn inp col s) s [0..<COL_COUNT]"

text \<open>The LED is on when some cell is stable-pressed.\<close>

definition isAnyKeyPressed :: "state \<Rightarrow> bool" where
  "isAnyKeyPressed s = list_ex (\<lambda>r. list_ex (\<lambda>c. keyState s r c) [0..<COL_COUNT]) [0..<ROW_COUNT]"

definition ledPhase :: "state \<Rightarrow> state" where
  "ledPhase s = s\<lparr>led := isAnyKeyPressed s\<rparr>"

subsection \<open>Phase 2: the layer\<close>

text \<open>The nested \<open>if\<close> that turns the three active flags into \<open>currentLayer\<close>.\<close>

definition resolveLayer :: "bool \<Rightarrow> bool \<Rightarrow> bool \<Rightarrow> nat" where
  "resolveLayer activeL1 activeShift activeFunc =
     (let currentLayer = 0 in
      if activeL1 then
        (let currentLayer = 1;
             currentLayer = (if activeShift then 3 else currentLayer);
             currentLayer = (if activeFunc then 2 else currentLayer)
         in currentLayer)
      else currentLayer)"

definition activeL1 :: "state \<Rightarrow> bool" where
  "activeL1 s = (if keyState s 2 5 then True else stickyL1 s)"

definition activeFunc :: "state \<Rightarrow> bool" where
  "activeFunc s = (if keyState s 1 6 then True else stickyFunc s)"

definition activeShift :: "state \<Rightarrow> bool" where
  "activeShift s = (if keyState s 3 2 then True else stickyShift s)"

text \<open>
  The layer phase: the three active flags, the assignment to \<open>stickyCtrl\<close>, and the layer.
  It returns \<open>currentLayer\<close> and the state.
\<close>

definition layerPhase :: "state \<Rightarrow> nat \<times> state" where
  "layerPhase s =
     (let aL1 = activeL1 s;
          aFunc = activeFunc s;
          aShift = activeShift s;
          s' = (if keyState s 3 3 \<and> stickyModeEnabled s then s\<lparr>stickyCtrl := True\<rparr> else s)
      in (resolveLayer aL1 aShift aFunc, s'))"

subsection \<open>Phase 3: dispatch\<close>

text \<open>
  What the action loop does with a cell whose state changed, once its code is resolved:
  \<open>pressed\<close> is the new stable state.
\<close>

definition handleKey :: "keyboard_lib \<Rightarrow> keycode \<Rightarrow> bool \<Rightarrow> state \<Rightarrow> state" where
  "handleKey K code pressed s =
     (if code = STICKY then
        (if pressed then
           (let s1 = (if stickyModeEnabled s then kb_releaseAll s else s);
                s2 = s1\<lparr>stickyModeEnabled := \<not> stickyModeEnabled s1\<rparr>
            in if \<not> stickyModeEnabled s2
               then s2\<lparr>stickyL1 := False, stickyFunc := False, stickyShift := False,
                       stickyCtrl := False, stickyAlt := False\<rparr>
               else s2)
         else s)
      else if code = KC_L1 then
        (if stickyModeEnabled s \<and> pressed then s\<lparr>stickyL1 := \<not> stickyL1 s\<rparr> else s)
      else if code = KEY_FUNC then
        (if stickyModeEnabled s \<and> pressed then s\<lparr>stickyFunc := \<not> stickyFunc s\<rparr> else s)
      else if code = KEY_LEFT_SHIFT K \<or> code = KEY_LEFT_CTRL K \<or> code = KEY_LEFT_ALT K then
        (if stickyModeEnabled s then
           (if pressed then
              (let s1 = (if code = KEY_LEFT_SHIFT K then s\<lparr>stickyShift := \<not> stickyShift s\<rparr> else s);
                   s2 = (if code = KEY_LEFT_CTRL K then s1\<lparr>stickyCtrl := \<not> stickyCtrl s1\<rparr> else s1);
                   s3 = (if code = KEY_LEFT_ALT K then s2\<lparr>stickyAlt := \<not> stickyAlt s2\<rparr> else s2)
               in s3)
            else s)
         else (if pressed then kb_press code s else kb_release code s))
      else if code \<noteq> BLANK then
        (if pressed then
           (let s1 = (if stickyShift s then kb_press (KEY_LEFT_SHIFT K) s else s);
                s2 = (if stickyCtrl s1 then kb_press (KEY_LEFT_CTRL K) s1 else s1);
                s3 = (if stickyAlt s2 then kb_press (KEY_LEFT_ALT K) s2 else s2)
            in kb_press code s3)
         else kb_release code s)
      else s)"

text \<open>
  The body of the action loop for the cell in row \<open>r\<close>, column \<open>c\<close>: nothing when the
  stable state is the one already dispatched; otherwise the history is updated first and
  the code of the current layer is handled.
\<close>

definition actionCell :: "keyboard_lib \<Rightarrow> nat \<Rightarrow> nat \<Rightarrow> nat \<Rightarrow> state \<Rightarrow> state" where
  "actionCell K currentLayer r c s =
     (let pressed = keyState s r c;
          prevPressed = prevInputState s r c
      in if pressed = prevPressed then s
         else (let s1 = s\<lparr>prevInputState := upd2 (prevInputState s) r c pressed\<rparr>;
                   code = keymaps K ! currentLayer ! r ! c
               in handleKey K code pressed s1))"

definition actionRow :: "keyboard_lib \<Rightarrow> nat \<Rightarrow> nat \<Rightarrow> state \<Rightarrow> state" where
  "actionRow K currentLayer r s = foldl (\<lambda>s c. actionCell K currentLayer r c s) s [0..<COL_COUNT]"

definition actionPhase :: "keyboard_lib \<Rightarrow> nat \<Rightarrow> state \<Rightarrow> state" where
  "actionPhase K currentLayer s = foldl (\<lambda>s r. actionRow K currentLayer r s) s [0..<ROW_COUNT]"

subsection \<open>One scan\<close>

definition scanMatrix :: "keyboard_lib \<Rightarrow> (nat \<Rightarrow> nat \<Rightarrow> bool \<times> millis) \<Rightarrow> state \<Rightarrow> state" where
  "scanMatrix K inp s =
     (let s1 = ledPhase (scanPhase inp s);
          (currentLayer, s2) = layerPhase s1
      in actionPhase K currentLayer s2)"

subsection \<open>Runs\<close>

text \<open>
  \<open>loop\<close> calls \<open>scanMatrix\<close> again and again: a run is one scan per element of a list of
  inputs.
\<close>

definition ticks :: "keyboard_lib \<Rightarrow> (nat \<Rightarrow> nat \<Rightarrow> bool \<times> millis) list \<Rightarrow> state \<Rightarrow> state" where
  "ticks K inps s = foldl (\<lambda>s inp. scanMatrix K inp s) s inps"

text \<open>
  The debounce step of one cell over a sequence of samples. A sample is the reading and the
  time in milliseconds since boot at which it is taken; \<open>millis()\<close> hands the sketch the
  low 32 bits of that time.
\<close>

definition cellRun :: "nat \<Rightarrow> nat \<Rightarrow> (bool \<times> nat) list \<Rightarrow> state \<Rightarrow> state" where
  "cellRun r c xs s = foldl (\<lambda>s x. debounceCell r c (fst x) (word_of_nat (snd x)) s) s xs"

text \<open>
  The raw level a sequence of samples ends at: the last reading, or \<open>False\<close> (what
  \<open>setup\<close> stores in \<open>lastRawState\<close>) when there is none.
\<close>

definition rawLevel :: "(bool \<times> nat) list \<Rightarrow> bool" where
  "rawLevel xs = fst (last ((False, 0) # xs))"

text \<open>
  The cells in the order of the action loop, and those among them whose stable state
  differs from the state last dispatched.
\<close>

definition cells :: "(nat \<times> nat) list" where
  "cells = List.product [0..<ROW_COUNT] [0..<COL_COUNT]"

definition edges :: "state \<Rightarrow> (nat \<times> nat) list" where
  "edges s = filter (\<lambda>(r, c). keyState s r c \<noteq> prevInputState s r c) cells"

subsection \<open>Concrete states and inputs\<close>

text \<open>
  A scan in which the cell at row \<open>r0\<close>, column \<open>c0\<close> alone reads \<open>HIGH\<close> and the clock
  reads \<open>t\<close> throughout.
\<close>

definition only_cell :: "nat \<Rightarrow> nat \<Rightarrow> millis \<Rightarrow> nat \<Rightarrow> nat \<Rightarrow> bool \<times> millis" where
  "only_cell r0 c0 t = (\<lambda>r c. (r = r0 \<and> c = c0, t))"

text \<open>
  The state after \<open>setup\<close> in which the cell at row 2, column 0 has become stable-pressed.
\<close>

definition sticky_cell_down :: state where
  "sticky_cell_down = setup_state\<lparr>keyState := upd2 (keyState setup_state) 2 0 True\<rparr>"

text \<open>
  Sticky mode on with the shift and ctrl latches set, and the cell at row 2, column 0
  just become stable-pressed.
\<close>

definition latched_shift_ctrl :: state where
  "latched_shift_ctrl =
     setup_state\<lparr>keyState := upd2 (keyState setup_state) 2 0 True,
       stickyModeEnabled := True, stickyShift := True, stickyCtrl := True\<rparr>"

text \<open>
  Sticky mode on with only the shift latch set; the cell at row 0, column 0 (\<open>'q'\<close> on
  layer 0) just become stable-pressed, and the same cell just become stable-released.
\<close>

definition shift_latched_q_down :: state where
  "shift_latched_q_down =
     setup_state\<lparr>keyState := upd2 (keyState setup_state) 0 0 True,
       stickyModeEnabled := True, stickyShift := True\<rparr>"

definition shift_latched_q_up :: state where
  "shift_latched_q_up =
     setup_state\<lparr>prevInputState := upd2 (prevInputState setup_state) 0 0 True,
       stickyModeEnabled := True, stickyShift := True\<rparr>"

text \<open>
  Sticky mode on, and the cell at row 2, column 5 (\<open>KC_L1\<close>) just become stable-pressed.
\<close>

definition sticky_l1_down :: state where
  "sticky_l1_down =
     setup_state\<lparr>keyState := upd2 (keyState setup_state) 2 5 True, stickyModeEnabled := True\<rparr>"

text \<open>
  Sticky mode on, and the cell at row 1, column 6 (\<open>KEY_FUNC\<close> on layer 1) just become stable-pressed.
\<close>

definition sticky_func_down :: state where
  "sticky_func_down =
     setup_state\<lparr>keyState := upd2 (keyState setup_state) 1 6 True, stickyModeEnabled := True\<rparr>"

text \<open>
  The state after \<open>setup\<close> and one sample of the cell at row 0, column 0 that read \<open>HIGH\<close>
  at time 0: the raw state is recorded, the stable state is still released.
\<close>

definition raw_high_at_0 :: state where
  "raw_high_at_0 = setup_state\<lparr>lastRawState := upd2 (lastRawState setup_state) 0 0 True\<rparr>"


text \<open>
  The cells at row 2, column 5 (\<open>KC_L1\<close>) and row 3, column 3 (\<open>KEY_LEFT_SHIFT\<close>) both
  stable-pressed, everything else released, sticky mode off.
\<close>

definition l1_and_shift_held :: state where
  "l1_and_shift_held =
     setup_state\<lparr>keyState := upd2 (upd2 (keyState setup_state) 2 5 True) 3 3 True\<rparr>"

text \<open>
  Sticky mode on with the shift latch set and the ctrl latch clear; the cell at row 3,
  column 3 is held: raw, stable and dispatched state are all pressed.
\<close>

definition ctrl_off_shift_cell_held :: state where
  "ctrl_off_shift_cell_held =
     setup_state\<lparr>keyState := upd2 (keyState setup_state) 3 3 True,
       prevInputState := upd2 (prevInputState setup_state) 3 3 True,
       lastRawState := upd2 (lastRawState setup_state) 3 3 True,
       stickyModeEnabled := True, stickyShift := True\<rparr>"

section \<open>Properties\<close>

subsection \<open>Arrays and loops\<close>

lemma upd2_apply [simp]: "upd2 a r c v r' c' = (if r' = r \<and> c' = c then v else a r' c')"
  by (simp add: upd2_def)

lemma upd2_same [simp]: "upd2 a r c (a r c) = a"
  by (simp add: upd2_def)

lemma upd2_triv: "a r c = v \<Longrightarrow> upd2 a r c v = a"
  by (auto simp add: upd2_def)

lemma foldl_fixed: "(\<And>x. x \<in> set xs \<Longrightarrow> f s x = s) \<Longrightarrow> foldl f s xs = s"
  by (induction xs) simp_all

lemma foldl_product:
  "foldl (\<lambda>s (x, y). f x y s) s (List.product xs ys) =
     foldl (\<lambda>s x. foldl (\<lambda>s y. f x y s) s ys) s xs"
  by (induction xs arbitrary: s) (simp_all add: foldl_map)

subsection \<open>The debounce step\<close>

text \<open>
  The step as one update: only the cell's own entries of the three debounce arrays can
  change.
\<close>

lemma debounceCell_eq:
  "debounceCell row col sample now s =
     s\<lparr>lastDebounceTime := upd2 (lastDebounceTime s) row col
          (if sample \<noteq> lastRawState s row col then now else lastDebounceTime s row col),
       keyState := upd2 (keyState s) row col
          (if now - (if sample \<noteq> lastRawState s row col then now else lastDebounceTime s row col)
                > DEBOUNCE_DELAY \<and> sample \<noteq> keyState s row col
           then sample else keyState s row col),
       lastRawState := upd2 (lastRawState s) row col sample\<rparr>"
  by (cases "sample = lastRawState s row col"; cases "sample = keyState s row col")
    (simp_all add: debounceCell_def Let_def DEBOUNCE_DELAY_def upd2_triv)

lemma debounceCell_fields:
  "keyState (debounceCell row col sample now s) row col =
     (if now - (if sample \<noteq> lastRawState s row col then now else lastDebounceTime s row col)
           > DEBOUNCE_DELAY \<and> sample \<noteq> keyState s row col
      then sample else keyState s row col)"
  "lastRawState (debounceCell row col sample now s) row col = sample"
  "lastDebounceTime (debounceCell row col sample now s) row col =
     (if sample \<noteq> lastRawState s row col then now else lastDebounceTime s row col)"
  by (simp_all add: debounceCell_eq)

lemma debounceCell_frame:
  "prevInputState (debounceCell row col v t s) = prevInputState s"
  "hid (debounceCell row col v t s) = hid s"
  "stickyModeEnabled (debounceCell row col v t s) = stickyModeEnabled s"
  "stickyCtrl (debounceCell row col v t s) = stickyCtrl s"
  by (simp_all add: debounceCell_def Let_def)

lemma raw_high_at_0_reached: "raw_high_at_0 = debounceCell 0 0 True 0 setup_state"
  by (simp add: debounceCell_eq) (simp add: raw_high_at_0_def setup_state_def DEBOUNCE_DELAY_def upd2_triv)

text \<open>
  C3, as the sketch has it. One step stores the sample in \<open>lastRawState\<close>; it stores \<open>now\<close>
  in \<open>lastDebounceTime\<close> when the sample differs from the old raw state, and leaves it
  otherwise; then, with \<open>lastDebounceTime\<close> as just updated, the stable state becomes the
  sample when \<open>now - lastDebounceTime\<close> is strictly greater than \<open>DEBOUNCE_DELAY\<close> (an
  unsigned 32-bit difference) and the sample differs from the stable state, and is left
  as it is in every other case: when the difference is not greater, so also when it
  equals \<open>DEBOUNCE_DELAY\<close>, and when the sample is the stable state already.
  Other cells and the rest of the state are untouched.
\<close>

theorem debounce_step:
  "lastRawState (debounceCell row col sample now s) row col = sample
   \<and> lastDebounceTime (debounceCell row col sample now s) row col =
       (if sample \<noteq> lastRawState s row col then now else lastDebounceTime s row col)
   \<and> keyState (debounceCell row col sample now s) row col =
       (if now - lastDebounceTime (debounceCell row col sample now s) row col > DEBOUNCE_DELAY
           \<and> sample \<noteq> keyState s row col
        then sample else keyState s row col)
   \<and> (now - lastDebounceTime (debounceCell row col sample now s) row col > DEBOUNCE_DELAY
        \<and> sample \<noteq> keyState s row col
      \<longrightarrow> keyState (debounceCell row col sample now s) row col = sample)
   \<and> (\<not> (now - lastDebounceTime (debounceCell row col sample now s) row col > DEBOUNCE_DELAY)
      \<longrightarrow> keyState (debounceCell row col sample now s) row col = keyState s row col)
   \<and> (sample = keyState s row col
      \<longrightarrow> keyState (debounceCell row col sample now s) row col = keyState s row col)
   \<and> ((r, c) \<noteq> (row, col)
      \<longrightarrow> keyState (debounceCell row col sample now s) r c = keyState s r c
        \<and> lastRawState (debounceCell row col sample now s) r c = lastRawState s r c
        \<and> lastDebounceTime (debounceCell row col sample now s) r c = lastDebounceTime s r c)
   \<and> (debounceCell row col sample now s)
        \<lparr>keyState := keyState s, lastRawState := lastRawState s,
         lastDebounceTime := lastDebounceTime s\<rparr> = s"
  by (auto simp add: debounceCell_eq)

theorem debounce_step_witness:
  "lastRawState (debounceCell 0 0 True 7 setup_state) 0 0
   \<and> lastDebounceTime (debounceCell 0 0 True 7 setup_state) 0 0 = 7
   \<and> \<not> keyState (debounceCell 0 0 True 7 setup_state) 0 0
   \<and> 6 - lastDebounceTime (debounceCell 0 0 True 6 raw_high_at_0) 0 0 > DEBOUNCE_DELAY
   \<and> True \<noteq> keyState raw_high_at_0 0 0
   \<and> keyState (debounceCell 0 0 True 6 raw_high_at_0) 0 0
   \<and> \<not> (5 - lastDebounceTime (debounceCell 0 0 True 5 raw_high_at_0) 0 0 > DEBOUNCE_DELAY)
   \<and> \<not> keyState (debounceCell 0 0 True 5 raw_high_at_0) 0 0
   \<and> ((1::nat), (2::nat)) \<noteq> (0, 0)
   \<and> \<not> keyState (debounceCell 0 0 True 6 raw_high_at_0) 1 2
   \<and> keyState ctrl_off_shift_cell_held 3 3
   \<and> 100 - lastDebounceTime (debounceCell 3 3 True 100 ctrl_off_shift_cell_held) 3 3 > DEBOUNCE_DELAY
   \<and> keyState (debounceCell 3 3 True 100 ctrl_off_shift_cell_held) 3 3"
proof -
  note A = debounce_step [of 0 0 True 7 setup_state 1 2]
  note B = debounce_step [of 0 0 True 6 raw_high_at_0 1 2]
  note C = debounce_step [of 0 0 True 5 raw_high_at_0 1 2]
  have raw: "lastRawState raw_high_at_0 0 0" "lastDebounceTime raw_high_at_0 0 0 = 0"
    "\<not> keyState raw_high_at_0 0 0" "\<not> keyState raw_high_at_0 1 2"
    "\<not> lastRawState setup_state 0 0" "\<not> keyState setup_state 0 0"
    by (simp_all add: raw_high_at_0_def setup_state_def)
  have ne: "((1::nat), (2::nat)) \<noteq> (0, 0)" by simp
  from A raw have a: "lastRawState (debounceCell 0 0 True 7 setup_state) 0 0"
    "lastDebounceTime (debounceCell 0 0 True 7 setup_state) 0 0 = 7" by simp_all
  with A raw have a3: "\<not> keyState (debounceCell 0 0 True 7 setup_state) 0 0"
    by (simp add: DEBOUNCE_DELAY_def)
  from B raw have b1: "lastDebounceTime (debounceCell 0 0 True 6 raw_high_at_0) 0 0 = 0" by simp
  then have b2: "6 - lastDebounceTime (debounceCell 0 0 True 6 raw_high_at_0) 0 0 > DEBOUNCE_DELAY"
    by (simp add: DEBOUNCE_DELAY_def)
  with B raw have b3: "keyState (debounceCell 0 0 True 6 raw_high_at_0) 0 0" by simp
  from B ne raw have b4: "\<not> keyState (debounceCell 0 0 True 6 raw_high_at_0) 1 2" by simp
  from C raw have c1: "lastDebounceTime (debounceCell 0 0 True 5 raw_high_at_0) 0 0 = 0" by simp
  then have c2: "\<not> (5 - lastDebounceTime (debounceCell 0 0 True 5 raw_high_at_0) 0 0 > DEBOUNCE_DELAY)"
    by (simp add: DEBOUNCE_DELAY_def)
  with C raw have c3: "\<not> keyState (debounceCell 0 0 True 5 raw_high_at_0) 0 0" by simp
  note D = debounce_step [of 3 3 True 100 ctrl_off_shift_cell_held 1 2]
  have held: "keyState ctrl_off_shift_cell_held 3 3" "lastRawState ctrl_off_shift_cell_held 3 3"
    "lastDebounceTime ctrl_off_shift_cell_held 3 3 = 0"
    by (simp_all add: ctrl_off_shift_cell_held_def setup_state_def)
  from D held have d1: "lastDebounceTime (debounceCell 3 3 True 100 ctrl_off_shift_cell_held) 3 3 = 0"
    by simp
  then have d2: "100 - lastDebounceTime (debounceCell 3 3 True 100 ctrl_off_shift_cell_held) 3 3
      > DEBOUNCE_DELAY"
    by (simp add: DEBOUNCE_DELAY_def)
  from D held have d3: "keyState (debounceCell 3 3 True 100 ctrl_off_shift_cell_held) 3 3"
    by simp
  from a a3 b2 raw b3 c2 c3 ne b4 held d2 d3 show ?thesis by simp
qed

text \<open>
  C3 as stated fails at equality: with the raw state \<open>HIGH\<close> since time 0 and the stable
  state released, a \<open>HIGH\<close> sample at time 5 has \<open>now - lastDebounceTime = DEBOUNCE_DELAY\<close>
  and differs from the stable state, yet the stable state is not committed.
\<close>

theorem debounce_equality_counterexample:
  "lastRawState raw_high_at_0 0 0 = True
   \<and> 5 - lastDebounceTime raw_high_at_0 0 0 \<ge> DEBOUNCE_DELAY
   \<and> True \<noteq> keyState raw_high_at_0 0 0
   \<and> keyState (debounceCell 0 0 True 5 raw_high_at_0) 0 0 \<noteq> True"
  by (simp add: debounceCell_fields) (simp add: raw_high_at_0_def setup_state_def DEBOUNCE_DELAY_def)

subsection \<open>The scan phase, cell by cell\<close>

text \<open>
  The scan phase touches the three debounce arrays only, and every cell of the matrix
  gets exactly its own debounce step: cells do not influence each other.
\<close>

lemma scanColumn_frame:
  "prevInputState (scanColumn inp col s) = prevInputState s"
  "hid (scanColumn inp col s) = hid s"
  "stickyModeEnabled (scanColumn inp col s) = stickyModeEnabled s"
  "stickyCtrl (scanColumn inp col s) = stickyCtrl s"
proof -
  have "prevInputState (foldl (\<lambda>s row. debounceCell row col (fst (inp row col)) (snd (inp row col)) s) s rows) = prevInputState s
    \<and> hid (foldl (\<lambda>s row. debounceCell row col (fst (inp row col)) (snd (inp row col)) s) s rows) = hid s
    \<and> stickyModeEnabled (foldl (\<lambda>s row. debounceCell row col (fst (inp row col)) (snd (inp row col)) s) s rows) = stickyModeEnabled s
    \<and> stickyCtrl (foldl (\<lambda>s row. debounceCell row col (fst (inp row col)) (snd (inp row col)) s) s rows) = stickyCtrl s" for rows
    by (induction rows arbitrary: s) (simp_all add: debounceCell_frame)
  then show "prevInputState (scanColumn inp col s) = prevInputState s"
  "hid (scanColumn inp col s) = hid s"
  "stickyModeEnabled (scanColumn inp col s) = stickyModeEnabled s"
  "stickyCtrl (scanColumn inp col s) = stickyCtrl s"
    by (simp_all add: scanColumn_def)
qed

lemma scanPhase_frame:
  "prevInputState (scanPhase inp s) = prevInputState s"
  "hid (scanPhase inp s) = hid s"
  "stickyModeEnabled (scanPhase inp s) = stickyModeEnabled s"
  "stickyCtrl (scanPhase inp s) = stickyCtrl s"
proof -
  have "prevInputState (foldl (\<lambda>s col. scanColumn inp col s) s cols) = prevInputState s
    \<and> hid (foldl (\<lambda>s col. scanColumn inp col s) s cols) = hid s
    \<and> stickyModeEnabled (foldl (\<lambda>s col. scanColumn inp col s) s cols) = stickyModeEnabled s
    \<and> stickyCtrl (foldl (\<lambda>s col. scanColumn inp col s) s cols) = stickyCtrl s" for cols
    by (induction cols arbitrary: s) (simp_all add: scanColumn_frame)
  then show "prevInputState (scanPhase inp s) = prevInputState s"
  "hid (scanPhase inp s) = hid s"
  "stickyModeEnabled (scanPhase inp s) = stickyModeEnabled s"
  "stickyCtrl (scanPhase inp s) = stickyCtrl s"
    by (simp_all add: scanPhase_def)
qed


lemma debounceRows_cell:
  "distinct rows \<Longrightarrow>
     keyState (foldl (\<lambda>s row. debounceCell row col (fst (inp row col)) (snd (inp row col)) s) s rows) r c =
       (if c = col \<and> r \<in> set rows
        then keyState (debounceCell r c (fst (inp r c)) (snd (inp r c)) s) r c else keyState s r c)
     \<and> lastRawState (foldl (\<lambda>s row. debounceCell row col (fst (inp row col)) (snd (inp row col)) s) s rows) r c =
       (if c = col \<and> r \<in> set rows
        then lastRawState (debounceCell r c (fst (inp r c)) (snd (inp r c)) s) r c else lastRawState s r c)
     \<and> lastDebounceTime (foldl (\<lambda>s row. debounceCell row col (fst (inp row col)) (snd (inp row col)) s) s rows) r c =
       (if c = col \<and> r \<in> set rows
        then lastDebounceTime (debounceCell r c (fst (inp r c)) (snd (inp r c)) s) r c else lastDebounceTime s r c)"
proof (induction rows arbitrary: s)
  case Nil
  show ?case by simp
next
  case (Cons x rows)
  then have d: "distinct rows" and x: "x \<notin> set rows" by simp_all
  show ?case
    using x by (simp add: Cons.IH [OF d]) (auto simp add: debounceCell_eq)
qed

lemma scanColumn_cell:
  "keyState (scanColumn inp col s) r c =
       (if c = col \<and> r < ROW_COUNT
        then keyState (debounceCell r c (fst (inp r c)) (snd (inp r c)) s) r c else keyState s r c)"
  "lastRawState (scanColumn inp col s) r c =
       (if c = col \<and> r < ROW_COUNT
        then lastRawState (debounceCell r c (fst (inp r c)) (snd (inp r c)) s) r c else lastRawState s r c)"
  "lastDebounceTime (scanColumn inp col s) r c =
       (if c = col \<and> r < ROW_COUNT
        then lastDebounceTime (debounceCell r c (fst (inp r c)) (snd (inp r c)) s) r c else lastDebounceTime s r c)"
  using debounceRows_cell [of "[0..<ROW_COUNT]" col inp s r c]
  by (simp_all add: scanColumn_def)

lemma scanColumns_cell:
  "distinct cols \<Longrightarrow>
     keyState (foldl (\<lambda>s col. scanColumn inp col s) s cols) r c =
       (if c \<in> set cols \<and> r < ROW_COUNT
        then keyState (debounceCell r c (fst (inp r c)) (snd (inp r c)) s) r c else keyState s r c)
     \<and> lastRawState (foldl (\<lambda>s col. scanColumn inp col s) s cols) r c =
       (if c \<in> set cols \<and> r < ROW_COUNT
        then lastRawState (debounceCell r c (fst (inp r c)) (snd (inp r c)) s) r c else lastRawState s r c)
     \<and> lastDebounceTime (foldl (\<lambda>s col. scanColumn inp col s) s cols) r c =
       (if c \<in> set cols \<and> r < ROW_COUNT
        then lastDebounceTime (debounceCell r c (fst (inp r c)) (snd (inp r c)) s) r c else lastDebounceTime s r c)"
proof (induction cols arbitrary: s)
  case Nil
  show ?case by simp
next
  case (Cons x cols)
  then have d: "distinct cols" and x: "x \<notin> set cols" by simp_all
  show ?case
    using x by (simp add: Cons.IH [OF d]) (auto simp add: debounceCell_eq scanColumn_cell)
qed

lemma scanPhase_cell:
  assumes "r < ROW_COUNT" and "c < COL_COUNT"
  shows "keyState (scanPhase inp s) r c = keyState (debounceCell r c (fst (inp r c)) (snd (inp r c)) s) r c"
    and "lastRawState (scanPhase inp s) r c = lastRawState (debounceCell r c (fst (inp r c)) (snd (inp r c)) s) r c"
    and "lastDebounceTime (scanPhase inp s) r c = lastDebounceTime (debounceCell r c (fst (inp r c)) (snd (inp r c)) s) r c"
  using assms scanColumns_cell [of "[0..<COL_COUNT]" inp s r c]
  by (simp_all add: scanPhase_def)

subsection \<open>The layer phase\<close>

lemma resolveLayer_cases:
  "resolveLayer a sh f = (if \<not> a then 0 else if f then 2 else if sh then 3 else 1)"
  by (simp add: resolveLayer_def)

lemma layerPhase_layer:
  "fst (layerPhase s) = resolveLayer (activeL1 s) (activeShift s) (activeFunc s)"
  by (simp add: layerPhase_def Let_def)



text \<open>
  C2. The three active flags give the layer with the precedence of the claim
  (\<open>layerPhase_layer\<close>, \<open>resolveLayer_cases\<close>), but \<open>activeShift\<close> reads the cell at row 3, column 2, which is
  blank on every layer, and not the cell at row 3, column 3 where the keymap has
  \<open>KEY_LEFT_SHIFT\<close>. With the layer-toggle cell and the shift cell both stable-pressed,
  nothing latched and the function key inactive, the layer is 1, not 3.
\<close>

theorem layer_with_shift_cell_held:
  "keymaps K ! 0 ! 2 ! 5 = KC_L1 \<and> keymaps K ! 0 ! 3 ! 3 = KEY_LEFT_SHIFT K
   \<and> keyState l1_and_shift_held 2 5 \<and> keyState l1_and_shift_held 3 3
   \<and> \<not> activeFunc l1_and_shift_held
   \<and> fst (layerPhase l1_and_shift_held) = 1"
  by (simp add: keymaps_def l1_and_shift_held_def setup_state_def layerPhase_def Let_def
      resolveLayer_def activeL1_def activeFunc_def activeShift_def)

subsection \<open>The action phase\<close>

lemma handleKey_arrays:
  "keyState (handleKey K code p s) = keyState s"
  "prevInputState (handleKey K code p s) = prevInputState s"
  "lastRawState (handleKey K code p s) = lastRawState s"
  "lastDebounceTime (handleKey K code p s) = lastDebounceTime s"
  "led (handleKey K code p s) = led s"
  by (simp_all add: handleKey_def Let_def kb_press_def kb_release_def kb_releaseAll_def)

lemma actionCell_skip: "keyState s r c = prevInputState s r c \<Longrightarrow> actionCell K l r c s = s"
  by (simp add: actionCell_def)


lemma actionCell_arrays:
  "keyState (actionCell K l r c s) = keyState s"
  "prevInputState (actionCell K l r c s) = upd2 (prevInputState s) r c (keyState s r c)"
  "lastRawState (actionCell K l r c s) = lastRawState s"
  "lastDebounceTime (actionCell K l r c s) = lastDebounceTime s"
  "led (actionCell K l r c s) = led s"
  by (simp_all add: actionCell_def Let_def handleKey_arrays upd2_triv)

lemma actionCells_keyState:
  "keyState (foldl (\<lambda>s c. actionCell K l r c s) s cs) = keyState s"
  by (induction cs arbitrary: s) (simp_all add: actionCell_arrays)


lemma actionRow_keyState: "keyState (actionRow K l r s) = keyState s"
  by (simp add: actionRow_def actionCells_keyState)


lemma actionRows_keyState:
  "keyState (foldl (\<lambda>s r. actionRow K l r s) s rs) = keyState s"
  by (induction rs arbitrary: s) (simp_all add: actionRow_keyState)


lemma actionPhase_keyState: "keyState (actionPhase K l s) = keyState s"
  by (simp add: actionPhase_def actionRows_keyState)


lemma actionPhase_idle:
  assumes "\<And>r c. r < ROW_COUNT \<Longrightarrow> c < COL_COUNT \<Longrightarrow> keyState s r c = prevInputState s r c"
  shows "actionPhase K l s = s"
proof -
  have row: "actionRow K l r s = s" if "r < ROW_COUNT" for r
    unfolding actionRow_def using assms that
    by (intro foldl_fixed actionCell_skip) simp
  show ?thesis
    unfolding actionPhase_def by (intro foldl_fixed row) simp
qed

text \<open>
  The action phase handles exactly the cells whose stable state differs from the
  dispatched one, each once, in loop order.
\<close>

lemma actionPhase_as_cells:
  "actionPhase K l s = foldl (\<lambda>s (r, c). actionCell K l r c s) s cells"
  by (simp add: actionPhase_def actionRow_def cells_def foldl_product)







lemma set_edges:
  "set (edges s) = {(r, c). r < ROW_COUNT \<and> c < COL_COUNT \<and> keyState s r c \<noteq> prevInputState s r c}"
  by (auto simp add: edges_def cells_def)

lemma actionPhase_debounce:
  "lastRawState (actionPhase K l s) = lastRawState s"
  "lastDebounceTime (actionPhase K l s) = lastDebounceTime s"
proof -
  have "lastRawState (foldl (\<lambda>s (r, c). actionCell K l r c s) s cs) = lastRawState s
      \<and> lastDebounceTime (foldl (\<lambda>s (r, c). actionCell K l r c s) s cs) = lastDebounceTime s" for cs
    by (induction cs arbitrary: s) (auto simp add: actionCell_arrays)
  then show "lastRawState (actionPhase K l s) = lastRawState s"
    "lastDebounceTime (actionPhase K l s) = lastDebounceTime s"
    by (simp_all add: actionPhase_as_cells)
qed

subsection \<open>One scan and many\<close>

lemma scanMatrix_unfold:
  "scanMatrix K inp s =
     actionPhase K (fst (layerPhase (ledPhase (scanPhase inp s))))
       (snd (layerPhase (ledPhase (scanPhase inp s))))"
  by (simp add: scanMatrix_def Let_def split_beta)




lemma scanMatrix_cell:
  assumes "r < ROW_COUNT" and "c < COL_COUNT"
  shows "keyState (scanMatrix K inp s) r c = keyState (debounceCell r c (fst (inp r c)) (snd (inp r c)) s) r c"
    and "lastRawState (scanMatrix K inp s) r c = lastRawState (debounceCell r c (fst (inp r c)) (snd (inp r c)) s) r c"
    and "lastDebounceTime (scanMatrix K inp s) r c = lastDebounceTime (debounceCell r c (fst (inp r c)) (snd (inp r c)) s) r c"
  using assms
  by (simp_all add: scanMatrix_unfold actionPhase_keyState actionPhase_debounce
      layerPhase_def ledPhase_def Let_def scanPhase_cell)

lemma ticks_snoc: "ticks K (inps @ [inp]) s = scanMatrix K inp (ticks K inps s)"
  by (simp add: ticks_def)


lemma ticks_cell:
  assumes "r < ROW_COUNT" and "c < COL_COUNT"
  shows "keyState (ticks K inps s) r c =
           keyState (foldl (\<lambda>s inp. debounceCell r c (fst (inp r c)) (snd (inp r c)) s) s inps) r c
         \<and> lastRawState (ticks K inps s) r c =
           lastRawState (foldl (\<lambda>s inp. debounceCell r c (fst (inp r c)) (snd (inp r c)) s) s inps) r c
         \<and> lastDebounceTime (ticks K inps s) r c =
           lastDebounceTime (foldl (\<lambda>s inp. debounceCell r c (fst (inp r c)) (snd (inp r c)) s) s inps) r c"
proof (induction inps rule: rev_induct)
  case Nil
  show ?case by (simp add: ticks_def)
next
  case (snoc inp inps)
  then show ?case
    by (simp add: ticks_snoc scanMatrix_cell [OF assms] debounceCell_eq)
qed

lemma ticks_cellRun:
  assumes "r < ROW_COUNT" and "c < COL_COUNT"
    and "map (\<lambda>inp. inp r c) inps = map (\<lambda>x. (fst x, word_of_nat (snd x))) xs"
  shows "keyState (ticks K inps s) r c = keyState (cellRun r c xs s) r c"
proof -
  have "foldl (\<lambda>s inp. debounceCell r c (fst (inp r c)) (snd (inp r c)) s) s inps =
        foldl (\<lambda>s p. debounceCell r c (fst p) (snd p) s) s (map (\<lambda>inp. inp r c) inps)"
    by (simp add: foldl_map)
  also have "\<dots> = cellRun r c xs s"
    by (simp add: assms(3) foldl_map cellRun_def)
  finally show ?thesis
    using ticks_cell [OF assms(1,2), of K inps s] by simp
qed




subsection \<open>Edge-triggered dispatch\<close>




subsection \<open>The ctrl latch in the layer phase\<close>

text \<open>
  C10. The cell at row 3, column 3 is where the keymap has \<open>KEY_LEFT_SHIFT\<close>. When sticky
  mode is on and that cell is stable-pressed, the layer phase returns the state with
  \<open>stickyCtrl\<close> set and nothing else changed, whatever \<open>stickyCtrl\<close> and the dispatched
  state of the cell were; otherwise it returns the state as it is. So no other latch is
  assigned there. In every scan with sticky mode on and the cell stable-pressed, the
  action phase therefore starts with \<open>stickyCtrl\<close> set; in such a scan without any edge
  the result is the scanned state with \<open>stickyCtrl\<close> set: a latch that was toggled off
  is back on after the next scan.
\<close>

theorem ctrl_latch_level_set:
  "(stickyModeEnabled s \<and> keyState s 3 3 \<longrightarrow> snd (layerPhase s) = s\<lparr>stickyCtrl := True\<rparr>)
   \<and> (\<not> (stickyModeEnabled s \<and> keyState s 3 3) \<longrightarrow> snd (layerPhase s) = s)
   \<and> keymaps K ! 0 ! 3 ! 3 = KEY_LEFT_SHIFT K
   \<and> (stickyModeEnabled s \<and> keyState (scanPhase inp s) 3 3
      \<longrightarrow> stickyCtrl (snd (layerPhase (ledPhase (scanPhase inp s)))))
   \<and> (stickyModeEnabled s \<and> keyState (scanPhase inp s) 3 3
        \<and> (\<forall>r<ROW_COUNT. \<forall>c<COL_COUNT. keyState (scanPhase inp s) r c = prevInputState s r c)
      \<longrightarrow> scanMatrix K inp s = (ledPhase (scanPhase inp s))\<lparr>stickyCtrl := True\<rparr>)"
proof -
  have "scanMatrix K inp s = (ledPhase (scanPhase inp s))\<lparr>stickyCtrl := True\<rparr>"
    if on: "stickyModeEnabled s" and held: "keyState (scanPhase inp s) 3 3"
      and idle: "\<forall>r<ROW_COUNT. \<forall>c<COL_COUNT. keyState (scanPhase inp s) r c = prevInputState s r c"
  proof -
    let ?s1 = "ledPhase (scanPhase inp s)"
    have l: "snd (layerPhase ?s1) = ?s1\<lparr>stickyCtrl := True\<rparr>"
      using on held by (simp add: layerPhase_def Let_def ledPhase_def scanPhase_frame)
    have "actionPhase K (fst (layerPhase ?s1)) (?s1\<lparr>stickyCtrl := True\<rparr>) = ?s1\<lparr>stickyCtrl := True\<rparr>"
      using idle by (intro actionPhase_idle) (simp add: ledPhase_def scanPhase_frame)
    then show ?thesis
      by (simp add: scanMatrix_unfold l)
  qed
  then show ?thesis
    by (simp add: layerPhase_def Let_def keymaps_def ledPhase_def scanPhase_frame)
qed

theorem ctrl_latch_level_set_witness:
  "stickyModeEnabled ctrl_off_shift_cell_held \<and> keyState ctrl_off_shift_cell_held 3 3
   \<and> \<not> stickyCtrl ctrl_off_shift_cell_held
   \<and> stickyCtrl (snd (layerPhase ctrl_off_shift_cell_held))
   \<and> stickyShift (snd (layerPhase ctrl_off_shift_cell_held)) = stickyShift ctrl_off_shift_cell_held
   \<and> \<not> (stickyModeEnabled setup_state \<and> keyState setup_state 3 3)
   \<and> snd (layerPhase setup_state) = setup_state
   \<and> keyState (scanPhase (only_cell 3 3 100) ctrl_off_shift_cell_held) 3 3
   \<and> stickyCtrl (snd (layerPhase (ledPhase (scanPhase (only_cell 3 3 100) ctrl_off_shift_cell_held))))
   \<and> stickyCtrl (scanMatrix stock_lib (only_cell 3 3 100) ctrl_off_shift_cell_held)
   \<and> hid (scanMatrix stock_lib (only_cell 3 3 100) ctrl_off_shift_cell_held) = [ReleaseAll]"
proof -
  note A = ctrl_latch_level_set [where s = ctrl_off_shift_cell_held and K = stock_lib
      and inp = "only_cell 3 3 100"]
  note B = ctrl_latch_level_set [where s = setup_state]
  have f: "stickyModeEnabled ctrl_off_shift_cell_held" "keyState ctrl_off_shift_cell_held 3 3"
    "\<not> stickyCtrl ctrl_off_shift_cell_held" "hid ctrl_off_shift_cell_held = [ReleaseAll]"
    by (simp_all add: ctrl_off_shift_cell_held_def setup_state_def)
  have g: "\<not> (stickyModeEnabled setup_state \<and> keyState setup_state 3 3)"
    by (simp add: setup_state_def)
  have k: "keyState (scanPhase (only_cell 3 3 100) ctrl_off_shift_cell_held) r c = (r = 3 \<and> c = 3)"
    if "r < ROW_COUNT" "c < COL_COUNT" for r c
    by (simp add: scanPhase_cell [OF that] debounceCell_fields only_cell_def)
      (simp add: ctrl_off_shift_cell_held_def setup_state_def DEBOUNCE_DELAY_def)
  have p: "prevInputState ctrl_off_shift_cell_held r c = (r = 3 \<and> c = 3)" for r c
    by (simp add: ctrl_off_shift_cell_held_def setup_state_def)
  have rc: "3 < ROW_COUNT" "3 < COL_COUNT"
    by (simp_all add: ROW_COUNT_def COL_COUNT_def)
  have idle: "\<forall>r<ROW_COUNT. \<forall>c<COL_COUNT.
         keyState (scanPhase (only_cell 3 3 100) ctrl_off_shift_cell_held) r c =
         prevInputState ctrl_off_shift_cell_held r c"
    by (simp add: k p)
  from A f have a: "snd (layerPhase ctrl_off_shift_cell_held) = ctrl_off_shift_cell_held\<lparr>stickyCtrl := True\<rparr>"
    by blast
  from B g have b: "snd (layerPhase setup_state) = setup_state"
    by blast
  from A f k [OF rc] idle have c:
    "scanMatrix stock_lib (only_cell 3 3 100) ctrl_off_shift_cell_held =
       (ledPhase (scanPhase (only_cell 3 3 100) ctrl_off_shift_cell_held))\<lparr>stickyCtrl := True\<rparr>"
    by blast
  from A f k [OF rc] have d:
    "stickyCtrl (snd (layerPhase (ledPhase (scanPhase (only_cell 3 3 100) ctrl_off_shift_cell_held))))"
    by blast
  from f g a b c d k [OF rc] show ?thesis
    by (simp add: ledPhase_def scanPhase_frame)
qed

subsection \<open>The special codes\<close>

lemma special_codes_distinct:
  "KC_L1 \<noteq> STICKY" "KEY_FUNC \<noteq> STICKY" "KEY_FUNC \<noteq> KC_L1"
  "STICKY \<noteq> BLANK" "KC_L1 \<noteq> BLANK" "KEY_FUNC \<noteq> BLANK"
  by (simp_all add: KC_L1_def STICKY_def KEY_FUNC_def BLANK_def)

lemma handleKey_STICKY_release: "handleKey K STICKY False s = s"
  by (simp add: handleKey_def)

lemma handleKey_KC_L1:
  "handleKey K KC_L1 pressed s =
     (if stickyModeEnabled s \<and> pressed then s\<lparr>stickyL1 := \<not> stickyL1 s\<rparr> else s)"
  by (simp add: handleKey_def special_codes_distinct)

lemma handleKey_KEY_FUNC:
  "handleKey K KEY_FUNC pressed s =
     (if stickyModeEnabled s \<and> pressed then s\<lparr>stickyFunc := \<not> stickyFunc s\<rparr> else s)"
  by (simp add: handleKey_def special_codes_distinct)

subsection \<open>The sticky toggle\<close>

text \<open>
  C9. In a state with sticky mode off, a press edge on the cell whose code is \<open>STICKY\<close>
  turns the mode on and does nothing else besides recording the edge: the five latches
  are as before and no call reaches the keyboard library.
\<close>

theorem sticky_toggle_on_frame:
  assumes "keyState s r c" and "\<not> prevInputState s r c"
    and "keymaps K ! currentLayer ! r ! c = STICKY"
    and "\<not> stickyModeEnabled s"
  shows "actionCell K currentLayer r c s =
           s\<lparr>prevInputState := upd2 (prevInputState s) r c True, stickyModeEnabled := True\<rparr>"
  using assms by (simp add: actionCell_def handleKey_def Let_def)

theorem sticky_toggle_on_frame_witness:
  "keyState sticky_cell_down 2 0 \<and> \<not> prevInputState sticky_cell_down 2 0
   \<and> keymaps stock_lib ! 2 ! 2 ! 0 = STICKY
   \<and> \<not> stickyModeEnabled sticky_cell_down
   \<and> stickyModeEnabled (actionCell stock_lib 2 2 0 sticky_cell_down)
   \<and> hid (actionCell stock_lib 2 2 0 sticky_cell_down) = [ReleaseAll]
   \<and> \<not> stickyCtrl (actionCell stock_lib 2 2 0 sticky_cell_down)"
  using sticky_toggle_on_frame [of sticky_cell_down 2 0 stock_lib 2]
  by (simp add: sticky_cell_down_def setup_state_def upd2_def keymaps_def)

text \<open>
  C5. In a state with sticky mode on, a press edge on the cell whose code is \<open>STICKY\<close>
  turns the mode off, clears the five latches and makes exactly one call on the keyboard
  library, \<open>releaseAll\<close>; besides recording the edge, nothing else changes.
\<close>

theorem sticky_toggle_off_clears:
  assumes "keyState s r c" and "\<not> prevInputState s r c"
    and "keymaps K ! currentLayer ! r ! c = STICKY"
    and "stickyModeEnabled s"
  shows "actionCell K currentLayer r c s =
           s\<lparr>prevInputState := upd2 (prevInputState s) r c True,
             stickyModeEnabled := False,
             stickyL1 := False, stickyFunc := False, stickyShift := False,
             stickyCtrl := False, stickyAlt := False,
             hid := hid s @ [ReleaseAll]\<rparr>"
  using assms by (simp add: actionCell_def handleKey_def Let_def kb_releaseAll_def)

theorem sticky_toggle_off_clears_witness:
  "keyState latched_shift_ctrl 2 0 \<and> \<not> prevInputState latched_shift_ctrl 2 0
   \<and> keymaps stock_lib ! 2 ! 2 ! 0 = STICKY
   \<and> stickyModeEnabled latched_shift_ctrl
   \<and> stickyShift latched_shift_ctrl \<and> stickyCtrl latched_shift_ctrl
   \<and> \<not> stickyModeEnabled (actionCell stock_lib 2 2 0 latched_shift_ctrl)
   \<and> \<not> stickyL1 (actionCell stock_lib 2 2 0 latched_shift_ctrl)
   \<and> \<not> stickyFunc (actionCell stock_lib 2 2 0 latched_shift_ctrl)
   \<and> \<not> stickyShift (actionCell stock_lib 2 2 0 latched_shift_ctrl)
   \<and> \<not> stickyCtrl (actionCell stock_lib 2 2 0 latched_shift_ctrl)
   \<and> \<not> stickyAlt (actionCell stock_lib 2 2 0 latched_shift_ctrl)
   \<and> hid (actionCell stock_lib 2 2 0 latched_shift_ctrl) = hid latched_shift_ctrl @ [ReleaseAll]"
  using sticky_toggle_off_clears [of latched_shift_ctrl 2 0 stock_lib 2]
  by (simp add: latched_shift_ctrl_def setup_state_def upd2_def keymaps_def)

lemma toggle_twice:
  "handleKey K STICKY True (handleKey K STICKY True s) =
     s\<lparr>stickyL1 := False, stickyFunc := False, stickyShift := False,
       stickyCtrl := False, stickyAlt := False, hid := hid s @ [ReleaseAll]\<rparr>"
  by (simp add: handleKey_def Let_def kb_releaseAll_def)

lemma toggle_pairs:
  "(handleKey K STICKY True ^^ (2 * Suc k)) s =
     s\<lparr>stickyL1 := False, stickyFunc := False, stickyShift := False,
       stickyCtrl := False, stickyAlt := False,
       hid := hid s @ replicate (Suc k) ReleaseAll\<rparr>"
proof (induction k)
  case 0
  show ?case by (simp add: toggle_twice numeral_2_eq_2)
next
  case (Suc k)
  have "(handleKey K STICKY True ^^ (2 * Suc (Suc k))) s =
        handleKey K STICKY True
          (handleKey K STICKY True ((handleKey K STICKY True ^^ (2 * Suc k)) s))"
    by simp
  also have "\<dots> =
        s\<lparr>stickyL1 := False, stickyFunc := False, stickyShift := False,
          stickyCtrl := False, stickyAlt := False,
          hid := (hid s @ replicate (Suc k) ReleaseAll) @ [ReleaseAll]\<rparr>"
    by (simp only: Suc.IH toggle_twice) simp
  also have "(hid s @ replicate (Suc k) ReleaseAll) @ [ReleaseAll] =
        hid s @ replicate (Suc (Suc k)) ReleaseAll"
    by (simp add: replicate_append_same)
  finally show ?case .
qed

text \<open>
  C8. Any positive even number of press edges on the sticky toggle, with nothing in
  between, leaves \<open>stickyModeEnabled\<close> as it was and the five latches false. (Each pair
  of presses also sends one \<open>releaseAll\<close>, and a release edge of the toggle changes
  nothing.)
\<close>

theorem sticky_toggle_even:
  assumes "even n" and "0 < n"
  shows "stickyModeEnabled ((handleKey K STICKY True ^^ n) s) = stickyModeEnabled s
         \<and> \<not> stickyL1 ((handleKey K STICKY True ^^ n) s)
         \<and> \<not> stickyFunc ((handleKey K STICKY True ^^ n) s)
         \<and> \<not> stickyShift ((handleKey K STICKY True ^^ n) s)
         \<and> \<not> stickyCtrl ((handleKey K STICKY True ^^ n) s)
         \<and> \<not> stickyAlt ((handleKey K STICKY True ^^ n) s)
         \<and> hid ((handleKey K STICKY True ^^ n) s) = hid s @ replicate (n div 2) ReleaseAll
         \<and> handleKey K STICKY False s = s"
proof -
  from assms obtain k where n: "n = 2 * Suc k"
    by (metis Suc_pred dvd_def nat_0_less_mult_iff)
  show ?thesis
    unfolding n by (simp only: toggle_pairs handleKey_STICKY_release) simp
qed

theorem sticky_toggle_even_witness:
  "even (4::nat) \<and> 0 < (4::nat)
   \<and> stickyModeEnabled latched_shift_ctrl \<and> stickyShift latched_shift_ctrl
   \<and> stickyModeEnabled ((handleKey stock_lib STICKY True ^^ 4) latched_shift_ctrl)
   \<and> \<not> stickyShift ((handleKey stock_lib STICKY True ^^ 4) latched_shift_ctrl)
   \<and> \<not> stickyCtrl ((handleKey stock_lib STICKY True ^^ 4) latched_shift_ctrl)
   \<and> hid ((handleKey stock_lib STICKY True ^^ 4) latched_shift_ctrl) =
        [ReleaseAll, ReleaseAll, ReleaseAll]"
proof -
  have e: "even (4::nat)" and p: "0 < (4::nat)"
    by simp_all
  have four: "(4::nat) = Suc (Suc (Suc (Suc 0)))"
    by simp
  have "hid ((handleKey stock_lib STICKY True ^^ 4) latched_shift_ctrl) =
          [ReleaseAll, ReleaseAll, ReleaseAll]"
    unfolding four by (simp add: toggle_twice latched_shift_ctrl_def setup_state_def)
  with e p sticky_toggle_even [OF e p, of stock_lib latched_shift_ctrl] show ?thesis
    by (simp add: latched_shift_ctrl_def setup_state_def)
qed

subsection \<open>Layer and function toggles\<close>

text \<open>
  C7. A cell whose code on the current layer is \<open>KC_L1\<close> or \<open>KEY_FUNC\<close> never adds a
  call to the keyboard library, whatever the mode and the edge. In sticky mode a press
  edge flips \<open>stickyL1\<close> (or \<open>stickyFunc\<close>) and changes nothing else besides recording
  the edge. In particular, from a state with the mode off and \<open>stickyL1\<close> false: a press
  and release of the sticky toggle turn the mode on, a press of the layer toggle sets
  \<open>stickyL1\<close>, a second press clears it, and the call log is the same at the end.
\<close>

theorem toggles_never_forwarded:
  "(keymaps K ! currentLayer ! r ! c = KC_L1 \<or> keymaps K ! currentLayer ! r ! c = KEY_FUNC
      \<longrightarrow> hid (actionCell K currentLayer r c s) = hid s)
   \<and> (keymaps K ! currentLayer ! r ! c = KC_L1 \<and> stickyModeEnabled s
        \<and> keyState s r c \<and> \<not> prevInputState s r c
      \<longrightarrow> actionCell K currentLayer r c s =
            s\<lparr>prevInputState := upd2 (prevInputState s) r c True, stickyL1 := \<not> stickyL1 s\<rparr>)
   \<and> (keymaps K ! currentLayer ! r ! c = KEY_FUNC \<and> stickyModeEnabled s
        \<and> keyState s r c \<and> \<not> prevInputState s r c
      \<longrightarrow> actionCell K currentLayer r c s =
            s\<lparr>prevInputState := upd2 (prevInputState s) r c True, stickyFunc := \<not> stickyFunc s\<rparr>)
   \<and> (\<not> stickyModeEnabled s \<and> \<not> stickyL1 s
      \<longrightarrow> (let s1 = handleKey K STICKY False (handleKey K STICKY True s);
                s2 = handleKey K KC_L1 False (handleKey K KC_L1 True s1);
                s3 = handleKey K KC_L1 False (handleKey K KC_L1 True s2)
            in stickyModeEnabled s1 \<and> stickyL1 s2 \<and> \<not> stickyL1 s3
               \<and> hid s1 = hid s \<and> hid s2 = hid s \<and> hid s3 = hid s))"
proof -
  have on: "\<not> stickyModeEnabled s \<Longrightarrow>
      handleKey K STICKY True s = s\<lparr>stickyModeEnabled := True\<rparr>"
    by (simp add: handleKey_def Let_def)
  show ?thesis
    by (auto simp add: actionCell_def Let_def handleKey_KC_L1 handleKey_KEY_FUNC
        handleKey_STICKY_release on)
qed

theorem toggles_never_forwarded_witness:
  "keymaps stock_lib ! 0 ! 2 ! 5 = KC_L1 \<and> keymaps stock_lib ! 1 ! 1 ! 6 = KEY_FUNC
   \<and> stickyModeEnabled sticky_l1_down
   \<and> keyState sticky_l1_down 2 5 \<and> \<not> prevInputState sticky_l1_down 2 5
   \<and> keyState sticky_func_down 1 6 \<and> \<not> prevInputState sticky_func_down 1 6
   \<and> hid (actionCell stock_lib 0 2 5 sticky_l1_down) = hid sticky_l1_down
   \<and> stickyL1 (actionCell stock_lib 0 2 5 sticky_l1_down)
   \<and> hid (actionCell stock_lib 1 1 6 sticky_func_down) = hid sticky_func_down
   \<and> stickyFunc (actionCell stock_lib 1 1 6 sticky_func_down)
   \<and> \<not> stickyModeEnabled setup_state \<and> \<not> stickyL1 setup_state
   \<and> stickyL1 (handleKey stock_lib KC_L1 True (handleKey stock_lib STICKY True setup_state))
   \<and> hid (handleKey stock_lib KC_L1 True (handleKey stock_lib KC_L1 True
          (handleKey stock_lib STICKY True setup_state))) = [ReleaseAll]"
proof -
  have on: "handleKey stock_lib STICKY True setup_state = setup_state\<lparr>stickyModeEnabled := True\<rparr>"
    by (simp add: handleKey_def Let_def setup_state_def)
  show ?thesis
    using toggles_never_forwarded [of stock_lib 0 2 5 sticky_l1_down]
      toggles_never_forwarded [of stock_lib 1 1 6 sticky_func_down]
      toggles_never_forwarded [of stock_lib 0 0 0 setup_state]
    by (simp add: sticky_l1_down_def sticky_func_down_def setup_state_def upd2_def keymaps_def
        handleKey_KC_L1 handleKey_STICKY_release Let_def on [unfolded setup_state_def])
qed

subsection \<open>Standard keys\<close>

text \<open>
  C6. A standard key is a code that none of the earlier branches takes and that is not
  blank. Its press edge sends a press for each set latch, in the order shift, ctrl, alt,
  and then the press of the code; its release edge sends the release of the code only.
  Neither changes a latch.
\<close>

theorem standard_key_edges:
  assumes "keymaps K ! currentLayer ! r ! c = code"
    and "code \<noteq> STICKY" and "code \<noteq> KC_L1" and "code \<noteq> KEY_FUNC"
    and "code \<noteq> KEY_LEFT_SHIFT K" and "code \<noteq> KEY_LEFT_CTRL K" and "code \<noteq> KEY_LEFT_ALT K"
    and "code \<noteq> BLANK"
  shows "(keyState s r c \<and> \<not> prevInputState s r c \<longrightarrow>
           actionCell K currentLayer r c s =
             s\<lparr>prevInputState := upd2 (prevInputState s) r c True,
               hid := hid s
                 @ (if stickyShift s then [Press (KEY_LEFT_SHIFT K)] else [])
                 @ (if stickyCtrl s then [Press (KEY_LEFT_CTRL K)] else [])
                 @ (if stickyAlt s then [Press (KEY_LEFT_ALT K)] else [])
                 @ [Press code]\<rparr>)
       \<and> (\<not> keyState s r c \<and> prevInputState s r c \<longrightarrow>
           actionCell K currentLayer r c s =
             s\<lparr>prevInputState := upd2 (prevInputState s) r c False,
               hid := hid s @ [Release code]\<rparr>)"
  using assms
  by (auto simp add: actionCell_def handleKey_def Let_def kb_press_def kb_release_def)

theorem standard_key_edges_witness:
  "keymaps stock_lib ! 0 ! 0 ! 0 = 0x71
   \<and> (0x71 :: keycode) \<noteq> STICKY \<and> (0x71 :: keycode) \<noteq> KC_L1 \<and> (0x71 :: keycode) \<noteq> KEY_FUNC
   \<and> 0x71 \<noteq> KEY_LEFT_SHIFT stock_lib \<and> 0x71 \<noteq> KEY_LEFT_CTRL stock_lib
   \<and> 0x71 \<noteq> KEY_LEFT_ALT stock_lib \<and> (0x71 :: keycode) \<noteq> BLANK
   \<and> keyState shift_latched_q_down 0 0 \<and> \<not> prevInputState shift_latched_q_down 0 0
   \<and> stickyShift shift_latched_q_down \<and> \<not> stickyCtrl shift_latched_q_down
   \<and> \<not> stickyAlt shift_latched_q_down
   \<and> hid (actionCell stock_lib 0 0 0 shift_latched_q_down) =
        hid shift_latched_q_down @ [Press (KEY_LEFT_SHIFT stock_lib), Press 0x71]
   \<and> \<not> keyState shift_latched_q_up 0 0 \<and> prevInputState shift_latched_q_up 0 0
   \<and> hid (actionCell stock_lib 0 0 0 shift_latched_q_up) =
        hid shift_latched_q_up @ [Release 0x71]"
  using standard_key_edges [of stock_lib 0 0 0 "0x71" shift_latched_q_down]
    standard_key_edges [of stock_lib 0 0 0 "0x71" shift_latched_q_up]
  by (simp add: shift_latched_q_down_def shift_latched_q_up_def setup_state_def upd2_def
      keymaps_def stock_lib_def ch_def STICKY_def KC_L1_def KEY_FUNC_def BLANK_def)

subsection \<open>Debouncing over time\<close>

lemma cellRun_snoc:
  "cellRun r c (xs @ [x]) s = debounceCell r c (fst x) (word_of_nat (snd x)) (cellRun r c xs s)"
  by (simp add: cellRun_def)

lemma rawLevel_simps [simp]:
  "rawLevel [] = False"
  "rawLevel (xs @ [x]) = fst x"
  by (simp_all add: rawLevel_def)

lemma rawLevel_held: "\<forall>x\<in>set mid. fst x = v \<Longrightarrow> rawLevel (pre @ (v, T0) # mid) = v"
  by (induction mid rule: rev_induct) (simp_all add: rawLevel_def)

lemma rawLevel_low: "\<forall>x\<in>set xs. \<not> fst x \<Longrightarrow> \<not> rawLevel xs"
  by (induction xs rule: rev_induct) simp_all

lemma cellRun_raw: "lastRawState (cellRun r c xs setup_state) r c = rawLevel xs"
  by (induction xs rule: rev_induct)
    (simp_all add: cellRun_snoc debounceCell_eq, simp add: cellRun_def setup_state_def)

lemma cellRun_inv:
  "((\<forall>x\<in>set xs. \<not> fst x) \<and> \<not> keyState (cellRun r c xs setup_state) r c)
   \<or> (\<exists>pre v T0 mid. xs = pre @ (v, T0) # mid \<and> rawLevel pre \<noteq> v \<and> (\<forall>x\<in>set mid. fst x = v)
        \<and> lastDebounceTime (cellRun r c xs setup_state) r c = word_of_nat T0)"
proof (induction xs rule: rev_induct)
  case Nil
  show ?case by (simp add: cellRun_def setup_state_def)
next
  case (snoc x xs)
  obtain v T where x: "x = (v, T)" by (cases x)
  let ?s = "cellRun r c xs setup_state"
  show ?case
  proof (cases "v = rawLevel xs")
    case False
    have "xs @ [x] = xs @ (v, T) # []" by (simp add: x)
    moreover have "lastDebounceTime (cellRun r c (xs @ [x]) setup_state) r c = word_of_nat T"
      using False by (simp add: cellRun_snoc debounceCell_eq cellRun_raw x)
    ultimately show ?thesis using False by (intro disjI2) fastforce
  next
    case True
    have time: "lastDebounceTime (cellRun r c (xs @ [x]) setup_state) r c = lastDebounceTime ?s r c"
      using True by (simp add: cellRun_snoc debounceCell_eq cellRun_raw x)
    from snoc.IH show ?thesis
    proof (elim disjE conjE exE)
      assume low: "\<forall>x\<in>set xs. \<not> fst x" and st: "\<not> keyState ?s r c"
      from low have "\<not> rawLevel xs" by (rule rawLevel_low)
      with True have v: "\<not> v" by simp
      with low st show ?thesis
        by (intro disjI1) (simp add: cellRun_snoc debounceCell_eq x)
    next
      fix pre v0 T0 mid
      assume xs: "xs = pre @ (v0, T0) # mid" and ch: "rawLevel pre \<noteq> v0"
        and mid: "\<forall>x\<in>set mid. fst x = v0"
        and t0: "lastDebounceTime ?s r c = word_of_nat T0"
      from mid have "rawLevel xs = v0" unfolding xs by (rule rawLevel_held)
      with True have "v = v0" by simp
      with xs mid have "xs @ [x] = pre @ (v0, T0) # (mid @ [x])" "\<forall>y\<in>set (mid @ [x]). fst y = v0"
        by (simp_all add: x)
      with ch t0 time show ?thesis
        by (intro disjI2) metis
    qed
  qed
qed

lemma word_diff_gt:
  assumes "T0 \<le> T" and "(word_of_nat T - word_of_nat T0 :: millis) > DEBOUNCE_DELAY"
  shows "T0 + unat DEBOUNCE_DELAY < T"
proof -
  have "(word_of_nat T - word_of_nat T0 :: millis) = word_of_nat (T - T0)"
    using assms(1) by (simp add: of_nat_diff)
  with assms(2) have "unat DEBOUNCE_DELAY < unat (word_of_nat (T - T0) :: millis)"
    by (simp add: word_less_nat_alt)
  also have "\<dots> \<le> T - T0"
    by (simp add: unat_of_nat)
  finally show ?thesis by simp
qed

lemma commit_needs_hold:
  assumes sorted: "sorted (map snd (xs @ [(v, T)]))"
    and change: "keyState (cellRun r c (xs @ [(v, T)]) setup_state) r c \<noteq> keyState (cellRun r c xs setup_state) r c"
  shows "\<exists>pre T0 mid. xs = pre @ (v, T0) # mid \<and> rawLevel pre \<noteq> v \<and> (\<forall>x\<in>set mid. fst x = v)
           \<and> T0 + unat DEBOUNCE_DELAY < T
           \<and> keyState (cellRun r c (xs @ [(v, T)]) setup_state) r c = v"
proof -
  let ?s = "cellRun r c xs setup_state"
  from change have raw: "v = rawLevel xs"
    and gt: "(word_of_nat T - lastDebounceTime ?s r c) > DEBOUNCE_DELAY"
    and ne: "v \<noteq> keyState ?s r c"
    and new: "keyState (cellRun r c (xs @ [(v, T)]) setup_state) r c = v"
    by (auto simp add: cellRun_snoc debounceCell_eq cellRun_raw split: if_splits)
  from cellRun_inv [of xs r c] show ?thesis
  proof (elim disjE conjE exE)
    assume low: "\<forall>x\<in>set xs. \<not> fst x" and st: "\<not> keyState ?s r c"
    from low have "\<not> rawLevel xs" by (rule rawLevel_low)
    with raw ne st show ?thesis by simp
  next
    fix pre v0 T0 mid
    assume xs: "xs = pre @ (v0, T0) # mid" and ch: "rawLevel pre \<noteq> v0"
      and mid: "\<forall>x\<in>set mid. fst x = v0"
      and t0: "lastDebounceTime ?s r c = word_of_nat T0"
    from mid have "rawLevel xs = v0" unfolding xs by (rule rawLevel_held)
    with raw have v: "v0 = v" by simp
    from sorted have "T0 \<le> T" by (simp add: xs sorted_append)
    with gt t0 have "T0 + unat DEBOUNCE_DELAY < T" by (simp add: word_diff_gt)
    with xs ch mid new v show ?thesis by blast
  qed
qed

lemma bounce_never_commits:
  assumes sorted: "sorted (map snd ys)"
    and bounce: "\<And>pre v T0 mid T zs. ys = pre @ (v, T0) # mid @ (v, T) # zs \<Longrightarrow> rawLevel pre \<noteq> v \<Longrightarrow>
                   \<forall>x\<in>set mid. fst x = v \<Longrightarrow> T \<le> T0 + unat DEBOUNCE_DELAY"
  shows "ys = us @ zs \<Longrightarrow> \<not> keyState (cellRun r c us setup_state) r c"
proof (induction us arbitrary: zs rule: rev_induct)
  case Nil
  show ?case by (simp add: cellRun_def setup_state_def)
next
  case (snoc x us)
  obtain v T where x: "x = (v, T)" by (cases x)
  from snoc.prems have ys: "ys = us @ (v, T) # zs" by (simp add: x)
  then have IH: "\<not> keyState (cellRun r c us setup_state) r c" by (rule snoc.IH)
  show ?case
  proof (rule ccontr)
    assume "\<not> \<not> keyState (cellRun r c (us @ [x]) setup_state) r c"
    with IH have ch: "keyState (cellRun r c (us @ [(v, T)]) setup_state) r c \<noteq> keyState (cellRun r c us setup_state) r c"
      by (simp add: x)
    from sorted have "sorted (map snd (us @ [(v, T)]))"
      by (simp add: ys sorted_append)
    from commit_needs_hold [OF this ch] obtain pre T0 mid
      where us: "us = pre @ (v, T0) # mid" and "rawLevel pre \<noteq> v" and "\<forall>x\<in>set mid. fst x = v"
        and lt: "T0 + unat DEBOUNCE_DELAY < T"
      by blast
    moreover from ys us have "ys = pre @ (v, T0) # mid @ (v, T) # zs" by simp
    ultimately have "T \<le> T0 + unat DEBOUNCE_DELAY" by (intro bounce)
    with lt show False by simp
  qed
qed

lemma bounce_trace:
  "\<forall>pre v T0 mid T zs. [(True, 0), (True, 5), (False, 7)] = pre @ (v, T0) # mid @ (v, T) # zs
      \<and> rawLevel pre \<noteq> v \<and> (\<forall>x\<in>set mid. fst x = v) \<longrightarrow> T \<le> T0 + unat DEBOUNCE_DELAY"
  by (auto simp add: append_eq_Cons_conv Cons_eq_append_conv DEBOUNCE_DELAY_def)

text \<open>
  C4. Time is the real time of each sample, in milliseconds since boot, and does not
  decrease along a run; the cell starts in the state \<open>setup\<close> leaves.
  First, if the last sample \<open>(v, T)\<close> of a run changes the stable state, then the raw signal
  changed to \<open>v\<close> at some earlier sample, taken at \<open>T0\<close>, every sample since read \<open>v\<close>, and
  more than \<open>DEBOUNCE_DELAY\<close> has passed since \<open>T0\<close>; the new stable state is \<open>v\<close>.
  Second, if the raw signal never holds a level beyond \<open>DEBOUNCE_DELAY\<close> (whenever it
  changes to \<open>v\<close> at \<open>T0\<close> and still reads \<open>v\<close> at every sample up to one taken at \<open>T\<close>, then
  \<open>T\<close> is at most \<open>T0 + DEBOUNCE_DELAY\<close>), the stable state never changes.
  Third, the stable state of a cell of the matrix after a run of scans is the one these
  cell runs compute.
\<close>

theorem debounce_hold:
  "(sorted (map snd (xs @ [(v, T)]))
      \<and> keyState (cellRun r c (xs @ [(v, T)]) setup_state) r c \<noteq> keyState (cellRun r c xs setup_state) r c
    \<longrightarrow> (\<exists>pre T0 mid. xs = pre @ (v, T0) # mid \<and> rawLevel pre \<noteq> v \<and> (\<forall>x\<in>set mid. fst x = v)
           \<and> T0 + unat DEBOUNCE_DELAY < T
           \<and> keyState (cellRun r c (xs @ [(v, T)]) setup_state) r c = v))
   \<and> (sorted (map snd ys)
      \<and> (\<forall>pre v T0 mid T zs. ys = pre @ (v, T0) # mid @ (v, T) # zs \<and> rawLevel pre \<noteq> v
             \<and> (\<forall>x\<in>set mid. fst x = v) \<longrightarrow> T \<le> T0 + unat DEBOUNCE_DELAY)
    \<longrightarrow> (\<forall>us zs. ys = us @ zs \<longrightarrow>
           keyState (cellRun r c us setup_state) r c = keyState setup_state r c))
   \<and> (r < ROW_COUNT \<and> c < COL_COUNT
      \<and> map (\<lambda>inp. inp r c) inps = map (\<lambda>x. (fst x, word_of_nat (snd x))) xs
    \<longrightarrow> keyState (ticks K inps setup_state) r c = keyState (cellRun r c xs setup_state) r c)"
proof (intro conjI impI allI)
  assume "sorted (map snd (xs @ [(v, T)]))
      \<and> keyState (cellRun r c (xs @ [(v, T)]) setup_state) r c \<noteq> keyState (cellRun r c xs setup_state) r c"
  then show "\<exists>pre T0 mid. xs = pre @ (v, T0) # mid \<and> rawLevel pre \<noteq> v \<and> (\<forall>x\<in>set mid. fst x = v)
           \<and> T0 + unat DEBOUNCE_DELAY < T
           \<and> keyState (cellRun r c (xs @ [(v, T)]) setup_state) r c = v"
    by (intro commit_needs_hold) simp_all
next
  fix us zs
  assume H: "sorted (map snd ys)
      \<and> (\<forall>pre v T0 mid T zs. ys = pre @ (v, T0) # mid @ (v, T) # zs \<and> rawLevel pre \<noteq> v
             \<and> (\<forall>x\<in>set mid. fst x = v) \<longrightarrow> T \<le> T0 + unat DEBOUNCE_DELAY)"
    and ys: "ys = us @ zs"
  have "\<not> keyState (cellRun r c us setup_state) r c"
  proof (rule bounce_never_commits [OF _ _ ys])
    from H show "sorted (map snd ys)" by simp
  next
    fix pre v T0 mid T zs
    assume "ys = pre @ (v, T0) # mid @ (v, T) # zs" "rawLevel pre \<noteq> v" "\<forall>x\<in>set mid. fst x = v"
    with H show "T \<le> T0 + unat DEBOUNCE_DELAY" by blast
  qed
  then show "keyState (cellRun r c us setup_state) r c = keyState setup_state r c"
    by (simp add: setup_state_def)
next
  assume "r < ROW_COUNT \<and> c < COL_COUNT
      \<and> map (\<lambda>inp. inp r c) inps = map (\<lambda>x. (fst x, word_of_nat (snd x))) xs"
  then show "keyState (ticks K inps setup_state) r c = keyState (cellRun r c xs setup_state) r c"
    by (intro ticks_cellRun) simp_all
qed

theorem debounce_hold_witness:
  "sorted (map snd ([(True, 0::nat)] @ [(True, 6)]))
   \<and> keyState (cellRun 0 0 ([(True, 0)] @ [(True, 6)]) setup_state) 0 0
   \<and> \<not> keyState (cellRun 0 0 [(True, 0)] setup_state) 0 0
   \<and> (\<exists>pre T0 mid. [(True, 0)] = pre @ (True, T0) # mid \<and> rawLevel pre \<noteq> True
        \<and> (\<forall>x\<in>set mid. fst x = True) \<and> T0 + unat DEBOUNCE_DELAY < 6)
   \<and> sorted (map snd [(True, 0::nat), (True, 5), (False, 7)])
   \<and> \<not> keyState (cellRun 0 0 [(True, 0), (True, 5)] setup_state) 0 0
   \<and> \<not> keyState (cellRun 0 0 [(True, 0), (True, 5), (False, 7)] setup_state) 0 0
   \<and> 0 < ROW_COUNT \<and> 0 < COL_COUNT
   \<and> map (\<lambda>inp. inp 0 0) [only_cell 0 0 0, only_cell 0 0 6] =
        map (\<lambda>x. (fst x, word_of_nat (snd x))) [(True, 0::nat), (True, 6)]
   \<and> keyState (ticks stock_lib [only_cell 0 0 0, only_cell 0 0 6] setup_state) 0 0"
proof -
  have a: "\<not> keyState (cellRun 0 0 [(True, 0)] setup_state) 0 0"
    by (simp add: cellRun_def debounceCell_fields) (simp add: setup_state_def DEBOUNCE_DELAY_def)
  have b: "keyState (cellRun 0 0 ([(True, 0)] @ [(True, 6)]) setup_state) 0 0"
    by (simp add: cellRun_def debounceCell_fields) (simp add: setup_state_def DEBOUNCE_DELAY_def)
  have s1: "sorted (map snd ([(True, 0)] @ [(True, 6::nat)]))"
    and s2: "sorted (map snd [(True, 0), (True, 5), (False, 7::nat)])"
    by simp_all
  have rc: "0 < ROW_COUNT" "0 < COL_COUNT"
    by (simp_all add: ROW_COUNT_def COL_COUNT_def)
  have m: "map (\<lambda>inp. inp 0 0) [only_cell 0 0 0, only_cell 0 0 6] =
        map (\<lambda>x. (fst x, word_of_nat (snd x))) [(True, 0::nat), (True, 6)]"
    by (simp add: only_cell_def)
  note A = debounce_hold [where xs = "[(True, 0)]" and v = True and T = 6 and r = 0 and c = 0
      and ys = "[(True, 0), (True, 5), (False, 7)]"]
  note B = debounce_hold [where xs = "[(True, 0), (True, 6)]" and r = 0 and c = 0 and K = stock_lib
      and inps = "[only_cell 0 0 0, only_cell 0 0 6]"]
  have p1: "\<exists>pre T0 mid. [(True, 0)] = pre @ (True, T0) # mid \<and> rawLevel pre \<noteq> True
        \<and> (\<forall>x\<in>set mid. fst x = True) \<and> T0 + unat DEBOUNCE_DELAY < 6"
    using A [THEN conjunct1] s1 a b by simp
  have p2: "\<forall>us zs. [(True, 0), (True, 5), (False, 7)] = us @ zs \<longrightarrow>
       keyState (cellRun 0 0 us setup_state) 0 0 = keyState setup_state 0 0"
    using A [THEN conjunct2, THEN conjunct1] s2 bounce_trace by simp
  from p2 [rule_format, of "[(True, 0), (True, 5)]" "[(False, 7)]"]
  have p2a: "\<not> keyState (cellRun 0 0 [(True, 0), (True, 5)] setup_state) 0 0"
    by (simp add: setup_state_def)
  from p2 [rule_format, of "[(True, 0), (True, 5), (False, 7)]" "[]"]
  have p2b: "\<not> keyState (cellRun 0 0 [(True, 0), (True, 5), (False, 7)] setup_state) 0 0"
    by (simp add: setup_state_def)
  have p3: "keyState (ticks stock_lib [only_cell 0 0 0, only_cell 0 0 6] setup_state) 0 0"
    using B [THEN conjunct2, THEN conjunct2] rc m b by simp
  from s1 b a p1 s2 p2a p2b rc m p3 show ?thesis
    by (intro conjI)
qed

end
